theory Spec2Isabelle
  imports Main "HOL-Library.Sublist"
begin

unbundle bit_operations_syntax

section \<open>Go strings, indices and slices\<close>

text \<open>
  A Go \<^verbatim>\<open>string\<close> is a sequence of bytes; it is modelled as \<^typ>\<open>string\<close>, a list of
  \<^typ>\<open>char\<close> (each a byte). Go's \<^verbatim>\<open>int\<close> indices are modelled as \<^typ>\<open>int\<close>: every index
  the program computes is at most four more than a string length, so no 64-bit wrap-around
  is reachable.
\<close>

abbreviation len :: "string \<Rightarrow> int" where
  "len s \<equiv> int (length s)"

text \<open>\<^verbatim>\<open>s[lo:hi]\<close> panics unless \<^verbatim>\<open>0 <= lo <= hi <= len(s)\<close>; the panic is \<^const>\<open>None\<close>.\<close>

definition str_slice :: "string \<Rightarrow> int \<Rightarrow> int \<Rightarrow> string option" where
  "str_slice s lo hi =
     (if 0 \<le> lo \<and> lo \<le> hi \<and> hi \<le> len s
      then Some (take (nat (hi - lo)) (drop (nat lo) s))
      else None)"

text \<open>\<^verbatim>\<open>s[i]\<close> panics unless \<^verbatim>\<open>0 <= i < len(s)\<close>.\<close>

definition str_at :: "string \<Rightarrow> int \<Rightarrow> char option" where
  "str_at s i = (if 0 \<le> i \<and> i < len s then Some (s ! nat i) else None)"

text \<open>
  \<^verbatim>\<open>strings.Index(s, substr)\<close>: the index of the first instance of \<^verbatim>\<open>substr\<close> in
  \<^verbatim>\<open>s\<close>, or \<^verbatim>\<open>-1\<close>. \<^verbatim>\<open>strings.LastIndex\<close> is the index of the last instance, and
  \<^verbatim>\<open>strings.Contains\<close> is \<^verbatim>\<open>Index(s, substr) >= 0\<close>.
\<close>

fun Index :: "string \<Rightarrow> string \<Rightarrow> int" where
  "Index [] sub = (if sub = [] then 0 else - 1)"
| "Index (c # cs) sub =
     (if prefix sub (c # cs) then 0
      else (let i = Index cs sub in if i = - 1 then - 1 else i + 1))"

fun LastIndex :: "string \<Rightarrow> string \<Rightarrow> int" where
  "LastIndex [] sub = (if sub = [] then 0 else - 1)"
| "LastIndex (c # cs) sub =
     (let i = LastIndex cs sub in
      if i \<noteq> - 1 then i + 1
      else if prefix sub (c # cs) then 0 else - 1)"

definition Contains :: "string \<Rightarrow> string \<Rightarrow> bool" where
  "Contains s sub = (0 \<le> Index s sub)"

section \<open>Protocol constants\<close>

definition EscapeCode :: string where
  "EscapeCode = [CHR 0x1B]"

definition EndCode :: string where
  "EndCode = [CHR 0x1C]"

section \<open>Errors\<close>

text \<open>
  Every \<^verbatim>\<open>errors.New\<close> and \<^verbatim>\<open>fmt.Errorf\<close> call site of the package is one constructor,
  carrying the arguments of its format string. \<open>TransportError\<close> is an error handed back
  by the serial port, and \<open>RuntimePanic\<close> is Go's run-time panic on an index or a slice
  out of range.
\<close>

datatype error =
    TransportError string
  | OperationTimedOut
  | InvalidResponseFormat
  | IncompleteResponse
  | BadHeader string
  | BadEnd string
  | MissingEscapeAfterStrip1
  | MissingEsc02 int
  | MissingEscapeAfterStrip2
  | MissingEsc03 int
  | StatusError string char
  | BpiStatusError char string
  | RuntimePanic

definition checked :: "'a option \<Rightarrow> ('a \<Rightarrow> error + 'b) \<Rightarrow> error + 'b" where
  "checked v k = (case v of None \<Rightarrow> Inl RuntimePanic | Some x \<Rightarrow> k x)"

section \<open>The ISO data block codec\<close>

definition encodeISODataBlock :: "string \<Rightarrow> string \<Rightarrow> string \<Rightarrow> string" where
  "encodeISODataBlock strip1 strip2 strip3 =
     [CHR 0x1B, CHR ''s'', CHR 0x1B, CHR 0x01] @ strip1 @ [CHR 0x1B, CHR 0x02] @ strip2
       @ [CHR 0x1B, CHR 0x03] @ strip3 @ [CHR ''?'', CHR 0x1C]"

text \<open>
  \<^verbatim>\<open>decodeISODataBlock\<close> is written here as its three commented stages, the later stage
  being the continuation of the earlier one. The stage of the third strip:
\<close>

definition decode_strip3 :: "string \<Rightarrow> string \<Rightarrow> string \<Rightarrow> int \<Rightarrow> error + (string \<times> string \<times> string)" where
  "decode_strip3 data strip1 strip2 strip2End =
     (let strip3Start = strip2End + 2 in
      if strip3Start \<ge> len data then Inl (MissingEsc03 strip2End)
      else checked (str_slice data strip2End strip3Start) (\<lambda>marker.
        if marker \<noteq> EscapeCode @ [CHR 0x03] then Inl (MissingEsc03 strip2End)
        else if strip3Start < len data
        then checked (str_at data strip3Start) (\<lambda>c.
               checked (str_at EscapeCode 0) (\<lambda>esc.
                 if c \<noteq> esc
                 then checked (str_slice data strip3Start (len data - 2)) (\<lambda>strip3.
                        Inr (strip1, strip2, strip3))
                 else Inr (strip1, strip2, [])))
        else Inr (strip1, strip2, [])))"

text \<open>The stage of the second strip:\<close>

definition decode_strip2 :: "string \<Rightarrow> string \<Rightarrow> int \<Rightarrow> error + (string \<times> string \<times> string)" where
  "decode_strip2 data strip1 strip1End =
     (let strip2Start = strip1End + 2 in
      if strip2Start \<ge> len data then Inl (MissingEsc02 strip1End)
      else checked (str_slice data strip1End strip2Start) (\<lambda>marker.
        if marker \<noteq> EscapeCode @ [CHR 0x02] then Inl (MissingEsc02 strip1End)
        else checked (str_slice data strip2Start (len data)) (\<lambda>rest.
          let strip2End = Index rest EscapeCode in
          if strip2End = - 1 then Inl MissingEscapeAfterStrip2
          else let strip2End = strip2End + strip2Start in
            if strip2End = strip2Start then decode_strip3 data strip1 [] (strip2End + 2)
            else checked (str_slice data strip2Start strip2End) (\<lambda>strip2.
                   decode_strip3 data strip1 strip2 strip2End))))"

text \<open>The header and terminator checks and the stage of the first strip:\<close>

definition decodeISODataBlock :: "string \<Rightarrow> error + (string \<times> string \<times> string)" where
  "decodeISODataBlock data =
     (if len data < 4 then Inl (BadHeader data)
      else checked (str_slice data 0 4) (\<lambda>header.
        if header \<noteq> EscapeCode @ ''s'' @ EscapeCode @ [CHR 0x01] then Inl (BadHeader data)
        else if len data < 2 then Inl (BadEnd data)
        else checked (str_slice data (len data - 2) (len data)) (\<lambda>trailer.
          if trailer \<noteq> ''?'' @ EndCode then Inl (BadEnd data)
          else let strip1Start = 4 in
            checked (str_slice data strip1Start (len data)) (\<lambda>rest.
              let strip1End = Index rest EscapeCode in
              if strip1End = - 1 then Inl MissingEscapeAfterStrip1
              else let strip1End = strip1End + strip1Start in
                if strip1End = strip1Start then decode_strip2 data [] (strip1End + 2)
                else checked (str_slice data strip1Start strip1End) (\<lambda>strip1.
                       decode_strip2 data strip1 strip1End)))))"

section \<open>The serial port\<close>

text \<open>
  The transport is the serial port of an external library; the package only calls its
  \<^verbatim>\<open>Read\<close>, \<^verbatim>\<open>Write\<close>, \<^verbatim>\<open>SetReadTimeout\<close> and \<^verbatim>\<open>Close\<close>. It is modelled with its
  surroundings as a scripted device: \<open>incoming\<close> lists the outcome of each coming
  \<^verbatim>\<open>Read\<close> call (the bytes it yields, the error it reports, the time it blocks, in
  milliseconds), \<open>write_errors\<close> the outcome of each coming \<^verbatim>\<open>Write\<close> call, \<open>writes\<close>
  records the argument of every \<^verbatim>\<open>Write\<close> call so far, and \<open>clock\<close> is the monotonic
  clock in milliseconds. When the script of reads is used up nothing arrives any more:
  a read blocks for the configured read timeout and returns no byte and no error.
  On a closed port both calls return an error. The script is a finite list, so a device that never stops sending is not covered;
  with it the two loops of the engine end, whatever the script.
\<close>

record rx_event =
  rx_bytes :: string
  rx_error :: "error option"
  rx_delay :: nat

record serial_port =
  is_open :: bool
  read_timeout :: nat
  incoming :: "rx_event list"
  write_errors :: "error option list"
  writes :: "string list"
  clock :: nat

definition port_closed :: error where
  "port_closed = TransportError ''Port has been closed''"

text \<open>\<^verbatim>\<open>n, err := port.Read(buffer)\<close>, with \<open>cap\<close> the length of the buffer.\<close>

definition port_Read :: "serial_port \<Rightarrow> nat \<Rightarrow> (string \<times> error option) \<times> serial_port" where
  "port_Read p cap =
     (if \<not> is_open p then (([], Some port_closed), p)
      else case incoming p of
             [] \<Rightarrow> (([], None), p\<lparr>clock := clock p + read_timeout p\<rparr>)
           | ev # evs \<Rightarrow>
               ((take cap (rx_bytes ev), rx_error ev),
                p\<lparr>incoming := evs, clock := clock p + rx_delay ev\<rparr>))"

text \<open>\<^verbatim>\<open>_, err := port.Write(bytes)\<close>.\<close>

definition port_Write :: "serial_port \<Rightarrow> string \<Rightarrow> error option \<times> serial_port" where
  "port_Write p bytes =
     (let p' = p\<lparr>writes := writes p @ [bytes]\<rparr> in
      if \<not> is_open p then (Some port_closed, p')
      else case write_errors p of
             [] \<Rightarrow> (None, p')
           | e # es \<Rightarrow> (e, p'\<lparr>write_errors := es\<rparr>))"

definition SetReadTimeout :: "serial_port \<Rightarrow> nat \<Rightarrow> serial_port" where
  "SetReadTimeout p t = p\<lparr>read_timeout := t\<rparr>"

definition port_Close :: "serial_port \<Rightarrow> serial_port" where
  "port_Close p = p\<lparr>is_open := False\<rparr>"

text \<open>\<^verbatim>\<open>time.Sleep(d)\<close>, \<open>d\<close> in milliseconds.\<close>

definition Sleep :: "serial_port \<Rightarrow> nat \<Rightarrow> serial_port" where
  "Sleep p d = p\<lparr>clock := clock p + d\<rparr>"

section \<open>The command protocol engine\<close>

record MSR =
  port :: serial_port

definition Close :: "MSR \<Rightarrow> MSR" where
  "Close m = m\<lparr>port := port_Close (port m)\<rparr>"

definition executeNoResult :: "MSR \<Rightarrow> string \<Rightarrow> (error + unit) \<times> MSR" where
  "executeNoResult m command =
     (case port_Write (port m) (EscapeCode @ command) of
        (Some err, p) \<Rightarrow> (Inl err, m\<lparr>port := p\<rparr>)
      | (None, p) \<Rightarrow> (Inr (), m\<lparr>port := Sleep p 100\<rparr>))"

definition Reset :: "MSR \<Rightarrow> (error + unit) \<times> MSR" where
  "Reset m = executeNoResult m ''a''"

text \<open>The loop that clears the input buffer (lines 104 to 109 of the source).\<close>

function clear_input :: "serial_port \<Rightarrow> serial_port" where
  "clear_input p =
     (case port_Read p 1024 of
        ((bytes, _), p') \<Rightarrow> if length bytes = 0 then p' else clear_input p')"
  by pat_completeness auto
termination
  by (relation "measure (\<lambda>p. length (incoming p))")
    (auto simp: port_Read_def split: if_splits list.splits)

declare clear_input.simps [simp del]

text \<open>\<^verbatim>\<open>time.Since(t)\<close>, a signed duration in milliseconds.\<close>

definition Since :: "serial_port \<Rightarrow> nat \<Rightarrow> int" where
  "Since p t = int (clock p) - int t"

text \<open>
  The loop that reads the response (lines 128 to 144): it runs while less than
  \<open>timeout\<close> has passed since \<open>startTime\<close>, and returns the accumulated response.
\<close>

function read_response :: "serial_port \<Rightarrow> nat \<Rightarrow> nat \<Rightarrow> string \<Rightarrow> string \<times> serial_port" where
  "read_response p startTime timeout response =
     (if Since p startTime < int timeout then
        (case port_Read p 1024 of
           ((bytes, err), p') \<Rightarrow>
             let n = length bytes in
             if err \<noteq> None \<and> n = 0 then (response, p')
             else if n > 0 then
               (let response = response @ bytes in
                if length response > 0 \<and> Contains response EscapeCode then (response, p')
                else read_response p' startTime timeout response)
             else read_response (Sleep p' 10) startTime timeout response)
      else (response, p))"
  by pat_completeness auto
termination
  by (relation "measures [\<lambda>(p, s, t, r). length (incoming p), \<lambda>(p, s, t, r). nat (int t - Since p s)]")
    (auto simp: port_Read_def Sleep_def Since_def split: if_splits list.splits)

declare read_response.simps [simp del]

text \<open>The split of the response into status, result and data (lines 150 to 169).\<close>

definition parse_response :: "string \<Rightarrow> error + (char \<times> string \<times> string)" where
  "parse_response responseStr =
     (let pos = LastIndex responseStr EscapeCode in
      if pos = - 1 then Inl InvalidResponseFormat
      else if pos + 1 \<ge> len responseStr then Inl IncompleteResponse
      else checked (str_at responseStr (pos + 1)) (\<lambda>status.
        checked (if pos + 2 < len responseStr
                 then str_slice responseStr (pos + 2) (len responseStr) else Some []) (\<lambda>result.
          checked (if pos > 0 then str_slice responseStr 0 pos else Some []) (\<lambda>data.
            Inr (status, result, data)))))"

text \<open>
  \<^verbatim>\<open>executeWaitResult\<close>; \<open>timeout\<close> is in milliseconds. The deferred
  \<^verbatim>\<open>SetReadTimeout(oldTimeout)\<close> runs on every return after the \<^verbatim>\<open>defer\<close> statement.
\<close>

definition executeWaitResult ::
    "MSR \<Rightarrow> string \<Rightarrow> nat \<Rightarrow> (error + (char \<times> string \<times> string)) \<times> MSR" where
  "executeWaitResult m command timeout =
     (let p0 = clear_input (port m) in
      case port_Write p0 (EscapeCode @ command) of
        (Some err, p1) \<Rightarrow> (Inl err, m\<lparr>port := p1\<rparr>)
      | (None, p1) \<Rightarrow>
          let p2 = Sleep p1 100;
              startTime = clock p2;
              oldTimeout = 100;
              p3 = SetReadTimeout p2 timeout
          in case read_response p3 startTime timeout [] of
               (response, p4) \<Rightarrow>
                 let m' = m\<lparr>port := SetReadTimeout p4 oldTimeout\<rparr> in
                 if length response = 0 then (Inl OperationTimedOut, m')
                 else (parse_response response, m'))"

section \<open>Conversions and formatting\<close>

text \<open>\<^verbatim>\<open>byte(n)\<close> keeps the low eight bits of the integer.\<close>

definition byte :: "int \<Rightarrow> char" where
  "byte n = char_of n"

text \<open>
  \<^verbatim>\<open>string(b)\<close> for a byte \<open>b\<close>, and the verb \<^verbatim>\<open>%c\<close> of \<^verbatim>\<open>fmt\<close>: the UTF-8 encoding of
  the code point \<open>b\<close>, one byte below \<open>0x80\<close> and two bytes from there on.
\<close>

definition string_of_byte :: "char \<Rightarrow> string" where
  "string_of_byte b =
     (let n = (of_char b :: int) in
      if n < 0x80 then [b] else [char_of (0xC0 + n div 0x40), char_of (0x80 + n mod 0x40)])"

definition hex_digit :: "nat \<Rightarrow> char" where
  "hex_digit d = (if d < 10 then char_of (48 + d) else char_of (87 + d))"

text \<open>The verb \<^verbatim>\<open>%x\<close> on a string: two lower-case hexadecimal digits for each byte.\<close>

definition fmt_x :: "string \<Rightarrow> string" where
  "fmt_x s = concat (map (\<lambda>c. [hex_digit (of_char c div 16), hex_digit (of_char c mod 16)]) s)"

fun dec_nat :: "nat \<Rightarrow> string" where
  "dec_nat n = (if n < 10 then [char_of (48 + n)] else dec_nat (n div 10) @ [char_of (48 + n mod 10)])"

text \<open>The verb \<^verbatim>\<open>%d\<close> on an integer.\<close>

definition fmt_d :: "int \<Rightarrow> string" where
  "fmt_d i = (if i < 0 then CHR ''-'' # dec_nat (nat (- i)) else dec_nat (nat i))"

text \<open>The text of each error, as \<^verbatim>\<open>Error()\<close> returns it.\<close>

fun error_text :: "error \<Rightarrow> string" where
  "error_text (TransportError s) = s"
| "error_text OperationTimedOut = ''operation timed out''"
| "error_text InvalidResponseFormat = ''invalid response format''"
| "error_text IncompleteResponse = ''incomplete response''"
| "error_text (BadHeader d) =
     ''bad datablock: doesn'' @ [CHR 0x27] @ ''t start with <ESC>s<ESC>[01]: '' @ d"
| "error_text (BadEnd d) = ''bad datablock: doesn'' @ [CHR 0x27] @ ''t end with ?<FS>: '' @ d"
| "error_text MissingEscapeAfterStrip1 = ''bad datablock: missing escape code after strip 1''"
| "error_text (MissingEsc02 n) = ''bad datablock: missing <ESC>[02] at position '' @ fmt_d n"
| "error_text MissingEscapeAfterStrip2 = ''bad datablock: missing escape code after strip 2''"
| "error_text (MissingEsc03 n) = ''bad datablock: missing <ESC>[03] at position '' @ fmt_d n"
| "error_text (StatusError operation status) = operation @ '' error: '' @ string_of_byte status"
| "error_text (BpiStatusError status mode) =
     ''set_bpi error: '' @ string_of_byte status @ '' for '' @ fmt_x mode"
| "error_text RuntimePanic = ''runtime error: index or slice bounds out of range''"

section \<open>The device operations\<close>

record TrackData =
  Track1 :: string
  Track2 :: string
  Track3 :: string

text \<open>Durations are in milliseconds: \<^verbatim>\<open>10*time.Second\<close> is \<open>10000\<close>.\<close>

definition ReadTracks :: "MSR \<Rightarrow> (error + TrackData) \<times> MSR" where
  "ReadTracks m =
     (case executeWaitResult m ''r'' 10000 of
        (Inl err, m') \<Rightarrow> (Inl err, m')
      | (Inr (status, _, data), m') \<Rightarrow>
          if status \<noteq> CHR ''0'' then (Inl (StatusError ''read'' status), m')
          else case decodeISODataBlock data of
                 Inl err \<Rightarrow> (Inl err, m')
               | Inr (strip1, strip2, strip3) \<Rightarrow>
                   (Inr \<lparr>Track1 = strip1, Track2 = strip2, Track3 = strip3\<rparr>, m'))"

definition WriteTracks :: "MSR \<Rightarrow> string \<Rightarrow> string \<Rightarrow> string \<Rightarrow> (error + unit) \<times> MSR" where
  "WriteTracks m t1 t2 t3 =
     (let data = encodeISODataBlock t1 t2 t3 in
      case executeWaitResult m (''w'' @ data) 10000 of
        (Inl err, m') \<Rightarrow> (Inl err, m')
      | (Inr (status, _, _), m') \<Rightarrow>
          if status \<noteq> CHR ''0'' then (Inl (StatusError ''write'' status), m')
          else (Inr (), m'))"

definition EraseTracks :: "MSR \<Rightarrow> bool \<Rightarrow> bool \<Rightarrow> bool \<Rightarrow> (error + unit) \<times> MSR" where
  "EraseTracks m t1 t2 t3 =
     (let mask = (0 :: int);
          mask = (if t1 then mask OR 1 else mask);
          mask = (if t2 then mask OR 2 else mask);
          mask = (if t3 then mask OR 4 else mask)
      in case executeWaitResult m (''c'' @ string_of_byte (byte mask)) 10000 of
           (Inl err, m') \<Rightarrow> (Inl err, m')
         | (Inr (status, _, _), m') \<Rightarrow>
             if status \<noteq> CHR ''0'' then (Inl (StatusError ''erase'' status), m')
             else (Inr (), m'))"

definition SetCoercivity :: "MSR \<Rightarrow> bool \<Rightarrow> (error + unit) \<times> MSR" where
  "SetCoercivity m hico =
     (let command = (if hico then ''x'' else ''y'') in
      case executeWaitResult m command 10000 of
        (Inl err, m') \<Rightarrow> (Inl err, m')
      | (Inr (status, _, _), m') \<Rightarrow>
          if status \<noteq> CHR ''0'' then (Inl (StatusError ''set_coercivity'' status), m')
          else (Inr (), m'))"

definition SetBPC :: "MSR \<Rightarrow> int \<Rightarrow> int \<Rightarrow> int \<Rightarrow> (error + unit) \<times> MSR" where
  "SetBPC m bpc1 bpc2 bpc3 =
     (case executeWaitResult m
             (''o'' @ string_of_byte (byte bpc1) @ string_of_byte (byte bpc2)
                @ string_of_byte (byte bpc3)) 10000 of
        (Inl err, m') \<Rightarrow> (Inl err, m')
      | (Inr (status, _, _), m') \<Rightarrow>
          if status \<noteq> CHR ''0'' then (Inl (StatusError ''set_bpc'' status), m')
          else (Inr (), m'))"

text \<open>
  \<^verbatim>\<open>SetBPI\<close>: a \<^verbatim>\<open>*bool\<close> parameter is a \<^typ>\<open>bool option\<close>, \<^verbatim>\<open>nil\<close> being \<^const>\<open>None\<close>.
  The list of modes is built first (lines 333 to 357), then one command is sent for
  each mode (lines 359 to 368).
\<close>

definition SetBPI_modes :: "bool option \<Rightarrow> bool option \<Rightarrow> bool option \<Rightarrow> string list" where
  "SetBPI_modes bpi1 bpi2 bpi3 =
     (let modes = [];
          modes = (case bpi1 of None \<Rightarrow> modes
                   | Some b \<Rightarrow> if b then modes @ [[CHR 0xA1]] else modes @ [[CHR 0xA0]]);
          modes = (case bpi2 of None \<Rightarrow> modes
                   | Some b \<Rightarrow> if b then modes @ [[CHR 0xD2]] else modes @ [[CHR 0x4B]]);
          modes = (case bpi3 of None \<Rightarrow> modes
                   | Some b \<Rightarrow> if b then modes @ [[CHR 0xC1]] else modes @ [[CHR 0xC0]])
      in modes)"

fun SetBPI_loop :: "MSR \<Rightarrow> string list \<Rightarrow> (error + unit) \<times> MSR" where
  "SetBPI_loop m [] = (Inr (), m)"
| "SetBPI_loop m (mode # modes) =
     (case executeWaitResult m (''b'' @ mode) 10000 of
        (Inl err, m') \<Rightarrow> (Inl err, m')
      | (Inr (status, _, _), m') \<Rightarrow>
          if status \<noteq> CHR ''0'' then (Inl (BpiStatusError status mode), m')
          else SetBPI_loop m' modes)"

definition SetBPI :: "MSR \<Rightarrow> bool option \<Rightarrow> bool option \<Rightarrow> bool option \<Rightarrow> (error + unit) \<times> MSR" where
  "SetBPI m bpi1 bpi2 bpi3 = SetBPI_loop m (SetBPI_modes bpi1 bpi2 bpi3)"

definition ReadRawTracks :: "MSR \<Rightarrow> (error + (string \<times> string \<times> string)) \<times> MSR" where
  "ReadRawTracks m =
     (case executeWaitResult m ''m'' 10000 of
        (Inl err, m') \<Rightarrow> (Inl err, m')
      | (Inr (status, _, data), m') \<Rightarrow>
          if status \<noteq> CHR ''0'' then (Inl (StatusError ''read'' status), m')
          else (Inr (data, [], []), m'))"

definition WriteRawTracks :: "MSR \<Rightarrow> string \<Rightarrow> string \<Rightarrow> string \<Rightarrow> (error + unit) \<times> MSR" where
  "WriteRawTracks m t1 t2 t3 =
     (let data = [CHR 0x1B, CHR ''s'', CHR 0x1B, CHR 0x01] @ string_of_byte (byte (len t1)) @ t1
                   @ [CHR 0x1B, CHR 0x02] @ string_of_byte (byte (len t2)) @ t2
                   @ [CHR 0x1B, CHR 0x03] @ string_of_byte (byte (len t3)) @ t3
                   @ [CHR ''?'', CHR 0x1C]
      in case executeWaitResult m (''n'' @ data) 10000 of
           (Inl err, m') \<Rightarrow> (Inl err, m')
         | (Inr (status, _, _), m') \<Rightarrow>
             if status \<noteq> CHR ''0'' then (Inl (StatusError ''write'' status), m')
             else (Inr (), m'))"

section \<open>Notions used in the statements\<close>

text \<open>
  Two states of the port are the same handle when they agree on everything but the
  script of reads and the clock.
\<close>

definition same_handle :: "serial_port \<Rightarrow> serial_port \<Rightarrow> bool" where
  "same_handle p p' \<longleftrightarrow> is_open p' = is_open p \<and> writes p' = writes p
      \<and> write_errors p' = write_errors p \<and> read_timeout p' = read_timeout p"

text \<open>The next \<^verbatim>\<open>Write\<close> call returns no error.\<close>

definition write_succeeds :: "serial_port \<Rightarrow> bool" where
  "write_succeeds p \<longleftrightarrow> is_open p \<and> (case write_errors p of [] \<Rightarrow> True | e # _ \<Rightarrow> e = None)"

text \<open>
  The response buffer that \<^const>\<open>executeWaitResult\<close> has accumulated when its read loop
  ends, for a call whose write succeeds.
\<close>

definition accumulated_response :: "MSR \<Rightarrow> string \<Rightarrow> nat \<Rightarrow> string" where
  "accumulated_response m command timeout =
     (let p0 = clear_input (port m);
          p1 = snd (port_Write p0 (EscapeCode @ command));
          p2 = Sleep p1 100
      in fst (read_response (SetReadTimeout p2 timeout) (clock p2) timeout []))"


text \<open>The outcome is the error of an operation about a status byte.\<close>

definition status_failure :: "error + 'a \<Rightarrow> bool" where
  "status_failure r =
     (case r of Inl (StatusError _ _) \<Rightarrow> True | Inl (BpiStatusError _ _) \<Rightarrow> True | _ \<Rightarrow> False)"

text \<open>
  On the handle \<open>h\<close> the engine returns the status \<open>0\<close> for the \<open>b\<close> command of the
  mode.
\<close>

definition answers_zero :: "MSR \<Rightarrow> string \<Rightarrow> bool" where
  "answers_zero h mode =
     (case fst (executeWaitResult h (''b'' @ mode) 10000) of
        Inr (status, _, _) \<Rightarrow> status = CHR ''0''
      | Inl _ \<Rightarrow> False)"

text \<open>
  Sample devices: a read that yields nothing after \<open>d\<close> milliseconds, a read that yields
  the given bytes, and a freshly opened device with a script of reads.
\<close>

definition quiet :: "nat \<Rightarrow> rx_event" where
  "quiet d = \<lparr>rx_bytes = [], rx_error = None, rx_delay = d\<rparr>"

definition reply :: "string \<Rightarrow> rx_event" where
  "reply bytes = \<lparr>rx_bytes = bytes, rx_error = None, rx_delay = 1\<rparr>"

definition device :: "rx_event list \<Rightarrow> MSR" where
  "device evs = \<lparr>port = \<lparr>is_open = True, read_timeout = 100, incoming = evs,
      write_errors = [], writes = [], clock = 0\<rparr>\<rparr>"

lemmas engine_eval = executeWaitResult_def parse_response_def checked_def str_at_def
  str_slice_def device_def quiet_def reply_def clear_input.simps read_response.simps
  port_Read_def port_Write_def Sleep_def SetReadTimeout_def Since_def Contains_def
  EscapeCode_def Let_def

section \<open>Facts about slices and searches\<close>

lemma slice_mid:
  assumes "lo = len a" and "hi = len a + len b"
  shows "str_slice (a @ b @ c) lo hi = Some b"
  using assms by (simp add: str_slice_def)

lemma slice_nth:
  assumes "str_slice s lo hi = Some xs" and "i < length xs"
  shows "s ! (nat lo + i) = xs ! i"
  using assms by (auto simp: str_slice_def split: if_splits)

lemma Index_single_app: "c \<notin> set xs \<Longrightarrow> Index (xs @ c # ys) [c] = len xs"
proof (induction xs)
  case Nil
  then show ?case by simp
next
  case (Cons a xs)
  then show ?case by (auto simp: Let_def)
qed

lemma Index_single_range: "Index s [c] = - 1 \<or> (0 \<le> Index s [c] \<and> Index s [c] < len s)"
  by (induction s) (auto simp: Let_def)

section \<open>The decoder stage by stage\<close>

lemma decode_strip3_no_panic:
  assumes tr: "str_slice data (len data - 2) (len data) = Some (''?'' @ EndCode)" and e: "0 \<le> e"
  shows "decode_strip3 data s1 s2 e \<noteq> Inl RuntimePanic"
proof (cases "e + 2 \<ge> len data")
  case True
  then show ?thesis by (simp add: decode_strip3_def)
next
  case False
  then obtain marker where m: "str_slice data e (e + 2) = Some marker"
    using e by (simp add: str_slice_def)
  show ?thesis
  proof (cases "marker = EscapeCode @ [CHR 0x03]")
    case neq: False
    then show ?thesis using False m by (simp add: decode_strip3_def checked_def)
  next
    case eq: True
    have "data ! (nat e + 1) = CHR 0x03"
      using slice_nth [OF m, of 1] eq by (simp add: EscapeCode_def)
    moreover have "data ! (nat (len data - 2) + 0) = CHR ''?''"
      using slice_nth [OF tr, of 0] by simp
    ultimately have "nat e + 1 \<noteq> nat (len data - 2)"
      by auto
    then have "e + 2 \<le> len data - 2"
      using False e by auto
    then obtain s3 where "str_slice data (e + 2) (len data - 2) = Some s3"
      using e by (simp add: str_slice_def)
    then show ?thesis
      using False m eq e by (simp add: decode_strip3_def checked_def str_at_def EscapeCode_def Let_def)
  qed
qed

lemma decode_strip2_no_panic:
  assumes tr: "str_slice data (len data - 2) (len data) = Some (''?'' @ EndCode)" and e: "0 \<le> e"
  shows "decode_strip2 data s1 e \<noteq> Inl RuntimePanic"
proof (cases "e + 2 \<ge> len data")
  case True
  then show ?thesis by (simp add: decode_strip2_def)
next
  case False
  then obtain marker where m: "str_slice data e (e + 2) = Some marker"
    using e by (simp add: str_slice_def)
  obtain rest where r: "str_slice data (e + 2) (len data) = Some rest"
    and lr: "len rest = len data - (e + 2)"
    using False e by (simp add: str_slice_def)
  define n where "n = Index rest EscapeCode"
  have n: "n = - 1 \<or> (0 \<le> n \<and> n < len rest)"
    using Index_single_range [of rest "CHR 0x1B"] by (simp add: n_def EscapeCode_def)
  have three: "decode_strip3 data s1 x (y + 2) \<noteq> Inl RuntimePanic" if "0 \<le> y" for x y
    using decode_strip3_no_panic [OF tr, of "y + 2"] that by simp
  show ?thesis
  proof (cases "marker = EscapeCode @ [CHR 0x02] \<and> n \<noteq> - 1")
    case False
    then show ?thesis using \<open>\<not> e + 2 \<ge> len data\<close> m r
      by (auto simp: decode_strip2_def checked_def n_def Let_def)
  next
    case True
    then have rng: "0 \<le> n" "n + (e + 2) \<le> len data" using n lr by auto
    then obtain s2 where "str_slice data (e + 2) (n + (e + 2)) = Some s2"
      using e by (simp add: str_slice_def)
    then show ?thesis
      using True \<open>\<not> e + 2 \<ge> len data\<close> m r e rng decode_strip3_no_panic [OF tr]
      by (simp add: decode_strip2_def checked_def n_def [symmetric] Let_def)
  qed
qed

lemma decode_strip3_not_header: "decode_strip3 data s1 s2 e \<noteq> Inl (BadHeader d)"
  by (auto simp: decode_strip3_def checked_def Let_def split: option.splits if_splits)

lemma decode_strip2_not_header: "decode_strip2 data s1 e \<noteq> Inl (BadHeader d)"
  by (auto simp: decode_strip2_def checked_def Let_def decode_strip3_not_header
      split: option.splits if_splits)

lemma decode_strip3_value:
  assumes "str_slice data e (e + 2) = Some (EscapeCode @ [CHR 0x03])"
    and "e + 2 < len data"
    and "str_at data (e + 2) = Some c" and "c \<noteq> CHR 0x1B"
    and "str_slice data (e + 2) (len data - 2) = Some s3"
  shows "decode_strip3 data s1 s2 e = Inr (s1, s2, s3)"
  using assms by (simp add: decode_strip3_def checked_def str_at_def EscapeCode_def)

lemma decode_strip2_value:
  assumes "str_slice data e (e + 2) = Some (EscapeCode @ [CHR 0x02])"
    and "e + 2 < len data"
    and "str_slice data (e + 2) (len data) = Some rest"
    and "Index rest EscapeCode = n" and "0 < n"
    and "str_slice data (e + 2) (n + (e + 2)) = Some s2"
  shows "decode_strip2 data s1 e = decode_strip3 data s1 s2 (n + (e + 2))"
  using assms by (simp add: decode_strip2_def checked_def)

lemma decode_header_value:
  assumes "str_slice data 0 4 = Some (EscapeCode @ ''s'' @ EscapeCode @ [CHR 0x01])"
    and "4 \<le> len data"
    and "str_slice data (len data - 2) (len data) = Some (''?'' @ EndCode)"
    and "str_slice data 4 (len data) = Some rest"
    and "Index rest EscapeCode = n" and "0 < n"
    and "str_slice data 4 (n + 4) = Some s1"
  shows "decodeISODataBlock data = decode_strip2 data s1 (n + 4)"
  using assms by (simp add: decodeISODataBlock_def checked_def)

section \<open>Facts about the engine\<close>

lemma LastIndex_single_notin: "c \<notin> set s \<Longrightarrow> LastIndex s [c] = - 1"
  by (induction s) (auto simp: Let_def)

lemma LastIndex_single_app: "c \<notin> set ys \<Longrightarrow> LastIndex (xs @ c # ys) [c] = len xs"
  by (induction xs) (auto simp: Let_def LastIndex_single_notin)

lemma parse_response_at:
  assumes pos: "pos < length buf" and esc: "buf ! pos = CHR 0x1B"
    and last: "CHR 0x1B \<notin> set (drop (Suc pos) buf)"
  shows "parse_response buf =
           (if Suc pos = length buf then Inl IncompleteResponse
            else Inr (buf ! Suc pos, drop (pos + 2) buf, take pos buf))"
proof -
  have "buf = take pos buf @ CHR 0x1B # drop (Suc pos) buf"
    using id_take_nth_drop [OF pos] esc by simp
  then have "LastIndex buf EscapeCode = len (take pos buf)"
    using LastIndex_single_app [OF last, of "take pos buf"] by (simp add: EscapeCode_def)
  then have li: "LastIndex buf EscapeCode = int pos"
    using pos by simp
  show ?thesis
    using pos by (auto simp: parse_response_def li checked_def str_at_def str_slice_def
        nat_add_distrib Let_def)
qed

lemma parse_response_no_escape:
  "CHR 0x1B \<notin> set buf \<Longrightarrow> parse_response buf = Inl InvalidResponseFormat"
  by (simp add: parse_response_def EscapeCode_def LastIndex_single_notin)

lemma same_handle_refl: "same_handle p p"
  by (simp add: same_handle_def)

lemma same_handle_trans: "same_handle p q \<Longrightarrow> same_handle q r \<Longrightarrow> same_handle p r"
  by (simp add: same_handle_def)

lemma port_Read_frame: "same_handle p (snd (port_Read p cap))"
  by (simp add: port_Read_def same_handle_def split: list.splits)

lemma Sleep_frame: "same_handle p (Sleep p d)"
  by (simp add: Sleep_def same_handle_def)

lemma clear_input_frame: "same_handle p (clear_input p)"
proof (induction p rule: clear_input.induct)
  case (1 p)
  obtain bytes e p' where r: "port_Read p 1024 = ((bytes, e), p')"
    by (metis prod.exhaust)
  have f: "same_handle p p'" using port_Read_frame [of p 1024] r by simp
  show ?case
  proof (cases "length bytes = 0")
    case True
    then show ?thesis using r f by (simp add: clear_input.simps [of p])
  next
    case False
    then have "same_handle p' (clear_input p')" using "1.IH" r by simp
    then show ?thesis using r f False same_handle_trans
      by (auto simp add: clear_input.simps [of p])
  qed
qed

lemma read_response_frame: "same_handle p (snd (read_response p s t r))"
proof (induction p s t r rule: read_response.induct)
  case (1 p s t r)
  obtain bytes e p' where rd: "port_Read p 1024 = ((bytes, e), p')"
    by (metis prod.exhaust)
  have f: "same_handle p p'" using port_Read_frame [of p 1024] rd by simp
  show ?case
  proof (cases "Since p s < int t")
    case False
    then show ?thesis by (simp add: read_response.simps [of p] same_handle_refl)
  next
    case w: True
    show ?thesis
    proof (cases "bytes = []")
      case True
      show ?thesis
      proof (cases "e = None")
        case True
        have "same_handle (Sleep p' 10) (snd (read_response (Sleep p' 10) s t r))"
          using "1.IH"(2) [OF w rd [symmetric] refl refl] \<open>bytes = []\<close> True by simp
        then have "same_handle p (snd (read_response (Sleep p' 10) s t r))"
          using f Sleep_frame [of p' 10] same_handle_trans by blast
        then show ?thesis using w rd \<open>bytes = []\<close> True
          by (simp add: read_response.simps [of p])
      next
        case False
        then show ?thesis using w rd \<open>bytes = []\<close> f
          by (simp add: read_response.simps [of p])
      qed
    next
      case ne: False
      show ?thesis
      proof (cases "Contains (r @ bytes) EscapeCode")
        case True
        then show ?thesis using w rd ne f
          by (simp add: read_response.simps [of p] Let_def)
      next
        case False
        have "same_handle p' (snd (read_response p' s t (r @ bytes)))"
          using "1.IH"(1) [OF w rd [symmetric] refl refl] ne False by simp
        then have "same_handle p (snd (read_response p' s t (r @ bytes)))"
          using f same_handle_trans by blast
        then show ?thesis using w rd ne False
          by (simp add: read_response.simps [of p] Let_def)
      qed
    qed
  qed
qed



lemma port_Write_succeeds:
  "write_succeeds p \<Longrightarrow> fst (port_Write p bytes) = None"
  by (auto simp: write_succeeds_def port_Write_def Let_def split: list.splits)

lemma port_Write_frame:
  "is_open (snd (port_Write p bytes)) = is_open p
   \<and> writes (snd (port_Write p bytes)) = writes p @ [bytes]
   \<and> read_timeout (snd (port_Write p bytes)) = read_timeout p
   \<and> incoming (snd (port_Write p bytes)) = incoming p"
  by (auto simp: port_Write_def Let_def split: list.splits)

lemma write_succeeds_cong: "same_handle p p' \<Longrightarrow> write_succeeds p' = write_succeeds p"
  by (simp add: same_handle_def write_succeeds_def)

lemma executeWaitResult_written:
  assumes "port_Write (clear_input (port m)) (EscapeCode @ command) = (None, p1)"
    and "read_response (SetReadTimeout (Sleep p1 100) timeout) (clock (Sleep p1 100)) timeout []
           = (response, p4)"
  shows "executeWaitResult m command timeout =
           (if response = [] then Inl OperationTimedOut else parse_response response,
            m\<lparr>port := SetReadTimeout p4 100\<rparr>)"
  using assms by (simp add: executeWaitResult_def Let_def)

lemma executeWaitResult_writes:
  "writes (port (snd (executeWaitResult m command timeout))) = writes (port m) @ [EscapeCode @ command]"
proof -
  define p0 where "p0 = clear_input (port m)"
  obtain werr p1 where w: "port_Write p0 (EscapeCode @ command) = (werr, p1)"
    by (metis prod.exhaust)
  have w0: "writes p0 = writes (port m)"
    using clear_input_frame [of "port m"] by (simp add: p0_def same_handle_def)
  have w1: "writes p1 = writes (port m) @ [EscapeCode @ command]"
    using port_Write_frame [of p0 "EscapeCode @ command"] w w0 by simp
  show ?thesis
  proof (cases werr)
    case (Some err)
    then show ?thesis using w w1 by (simp add: executeWaitResult_def p0_def [symmetric])
  next
    case None
    define p3 where "p3 = SetReadTimeout (Sleep p1 100) timeout"
    obtain response p4 where rr: "read_response p3 (clock (Sleep p1 100)) timeout [] = (response, p4)"
      by (metis prod.exhaust)
    have "writes p4 = writes p3"
      using read_response_frame [of p3 "clock (Sleep p1 100)" timeout "[]"] rr
      by (simp add: same_handle_def)
    then have "writes p4 = writes (port m) @ [EscapeCode @ command]"
      using w1 by (simp add: p3_def SetReadTimeout_def Sleep_def)
    then show ?thesis
      using executeWaitResult_written [of m command p1 timeout response p4] w None rr
      by (simp add: p0_def p3_def SetReadTimeout_def)
  qed
qed

lemma executeWaitResult_outcome:
  assumes ws: "write_succeeds (port m)"
  shows "fst (executeWaitResult m command timeout) =
           (if accumulated_response m command timeout = [] then Inl OperationTimedOut
            else parse_response (accumulated_response m command timeout))
         \<and> is_open (port (snd (executeWaitResult m command timeout)))
         \<and> read_timeout (port (snd (executeWaitResult m command timeout))) = 100"
proof -
  define p0 where "p0 = clear_input (port m)"
  obtain werr p1 where w: "port_Write p0 (EscapeCode @ command) = (werr, p1)"
    by (metis prod.exhaust)
  have h0: "same_handle (port m) p0"
    using clear_input_frame [of "port m"] by (simp add: p0_def)
  then have "write_succeeds p0" using ws write_succeeds_cong by blast
  then have werr: "werr = None"
    using port_Write_succeeds [of p0 "EscapeCode @ command"] w by simp
  have o1: "is_open p1"
    using port_Write_frame [of p0 "EscapeCode @ command"] w h0 ws
    by (simp add: same_handle_def write_succeeds_def)
  define p3 where "p3 = SetReadTimeout (Sleep p1 100) timeout"
  obtain response p4 where rr: "read_response p3 (clock (Sleep p1 100)) timeout [] = (response, p4)"
    by (metis prod.exhaust)
  have acc: "accumulated_response m command timeout = response"
    using w rr by (simp add: accumulated_response_def p0_def [symmetric] p3_def [symmetric] Let_def)
  have o4: "is_open p4"
    using read_response_frame [of p3 "clock (Sleep p1 100)" timeout "[]"] rr o1
    by (simp add: same_handle_def p3_def SetReadTimeout_def Sleep_def)
  show ?thesis
    using executeWaitResult_written [of m command p1 timeout response p4] w werr rr o4 acc
    by (simp add: p0_def p3_def SetReadTimeout_def)
qed




lemma engine_result:
  "fst (executeWaitResult m command timeout) = r \<Longrightarrow>
   executeWaitResult m command timeout = (r, snd (executeWaitResult m command timeout))"
  by (simp add: prod_eq_iff)

section \<open>Facts about the device operations\<close>

lemma snd_status_check:
  "snd (case x of (Inl err, m') \<Rightarrow> (Inl err, m')
        | (Inr (status, result, data), m') \<Rightarrow> if c status then (f status, m') else (g status result data, m'))
   = snd x"
  by (auto split: prod.splits sum.splits)

lemma erase_mask:
  "string_of_byte (byte (let mask = (0 :: int);
          mask = (if t1 then mask OR 1 else mask);
          mask = (if t2 then mask OR 2 else mask);
          mask = (if t3 then mask OR 4 else mask) in mask))
   = [char_of ((if t1 then 1 else 0) + (if t2 then 2 else 0) + (if t3 then 4 else 0) :: int)]"
  by (cases t1; cases t2; cases t3) (simp_all add: string_of_byte_def byte_def Let_def)

lemma SetBPI_modes_table:
  "SetBPI_modes b1 b2 b3 =
     (case b1 of None \<Rightarrow> [] | Some h \<Rightarrow> [[if h then CHR 0xA1 else CHR 0xA0]])
     @ (case b2 of None \<Rightarrow> [] | Some h \<Rightarrow> [[if h then CHR 0xD2 else CHR 0x4B]])
     @ (case b3 of None \<Rightarrow> [] | Some h \<Rightarrow> [[if h then CHR 0xC1 else CHR 0xC0]])"
  by (simp add: SetBPI_modes_def split: option.splits)

lemma SetBPI_loop_next:
  "answers_zero m mode \<Longrightarrow>
     SetBPI_loop m (mode # modes)
       = SetBPI_loop (snd (executeWaitResult m (''b'' @ mode) 10000)) modes"
  by (auto simp: answers_zero_def split: prod.splits sum.splits)

lemma SetBPI_loop_stop:
  "\<not> answers_zero m mode \<Longrightarrow>
     snd (SetBPI_loop m (mode # modes)) = snd (executeWaitResult m (''b'' @ mode) 10000)
     \<and> fst (SetBPI_loop m (mode # modes)) \<noteq> Inr ()"
  by (auto simp: answers_zero_def split: prod.splits sum.splits)

lemma SetBPI_loop_trace:
  "\<exists>k ms. k \<le> length modes \<and> length ms = Suc k \<and> ms ! 0 = m
     \<and> ms ! k = snd (SetBPI_loop m modes)
     \<and> (\<forall>i<k. ms ! Suc i = snd (executeWaitResult (ms ! i) (''b'' @ modes ! i) 10000))
     \<and> (\<forall>i<k. answers_zero (ms ! i) (modes ! i)
                 = (Suc i < k \<or> fst (SetBPI_loop m modes) = Inr ()))
     \<and> (if fst (SetBPI_loop m modes) = Inr () then k = length modes else 0 < k)"
proof (induction modes arbitrary: m)
  case Nil
  show ?case
    by (rule exI [of _ 0], rule exI [of _ "[m]"]) simp
next
  case (Cons mode modes)
  define m' where "m' = snd (executeWaitResult m (''b'' @ mode) 10000)"
  show ?case
  proof (cases "answers_zero m mode")
    case False
    have s: "snd (SetBPI_loop m (mode # modes)) = m'"
      and f: "fst (SetBPI_loop m (mode # modes)) \<noteq> Inr ()"
      using False SetBPI_loop_stop [of m mode modes] by (simp_all add: m'_def)
    show ?thesis
      by (rule exI [of _ 1], rule exI [of _ "[m, m']"]) (use False s f in \<open>simp add: m'_def\<close>)
  next
    case True
    then have s: "SetBPI_loop m (mode # modes) = SetBPI_loop m' modes"
      using SetBPI_loop_next [of m mode modes] by (simp add: m'_def)
    obtain k ms where k: "k \<le> length modes" "length ms = Suc k" "ms ! 0 = m'"
      "ms ! k = snd (SetBPI_loop m' modes)"
      "\<forall>i<k. ms ! Suc i = snd (executeWaitResult (ms ! i) (''b'' @ modes ! i) 10000)"
      "\<forall>i<k. answers_zero (ms ! i) (modes ! i)
                 = (Suc i < k \<or> fst (SetBPI_loop m' modes) = Inr ())"
      "if fst (SetBPI_loop m' modes) = Inr () then k = length modes else 0 < k"
      using Cons.IH [of m'] by blast
    have a: "\<forall>i<Suc k. (m # ms) ! Suc i
        = snd (executeWaitResult ((m # ms) ! i) (''b'' @ (mode # modes) ! i) 10000)"
    proof (intro allI impI)
      fix i assume "i < Suc k"
      then show "(m # ms) ! Suc i
        = snd (executeWaitResult ((m # ms) ! i) (''b'' @ (mode # modes) ! i) 10000)"
        using k(3,5) by (cases i) (simp_all add: m'_def)
    qed
    have b: "\<forall>i<Suc k. answers_zero ((m # ms) ! i) ((mode # modes) ! i)
                 = (Suc i < Suc k \<or> fst (SetBPI_loop m (mode # modes)) = Inr ())"
    proof (intro allI impI)
      fix i assume "i < Suc k"
      then show "answers_zero ((m # ms) ! i) ((mode # modes) ! i)
                 = (Suc i < Suc k \<or> fst (SetBPI_loop m (mode # modes)) = Inr ())"
        using k(6,7) True s by (cases i) (auto split: if_splits)
    qed
    show ?thesis
      apply (rule exI [of _ "Suc k"], rule exI [of _ "m # ms"])
      using k(1,2,4,7) a b s by (simp split: if_splits)
  qed
qed

lemma trace_writes:
  assumes "\<forall>i<k. ms ! Suc i = snd (executeWaitResult (ms ! i) (''b'' @ modes ! i) 10000)"
    and "k \<le> length modes" and "j \<le> k"
  shows "writes (port (ms ! j))
           = writes (port (ms ! 0)) @ map (\<lambda>mode. EscapeCode @ ''b'' @ mode) (take j modes)"
  using assms(3)
proof (induction j)
  case 0
  show ?case by simp
next
  case (Suc j)
  then have j: "j < k" "j < length modes" using assms(2) by simp_all
  have "ms ! Suc j = snd (executeWaitResult (ms ! j) (''b'' @ modes ! j) 10000)"
    using assms(1) j by simp
  then have "writes (port (ms ! Suc j)) = writes (port (ms ! j)) @ [EscapeCode @ ''b'' @ modes ! j]"
    using executeWaitResult_writes [of "ms ! j" "''b'' @ modes ! j" 10000] by simp
  then show ?case
    using Suc j by (simp add: take_Suc_conv_app_nth)
qed

lemma decode_strip3_not_status: "\<not> status_failure (decode_strip3 data s1 s2 e)"
  by (auto simp: decode_strip3_def checked_def Let_def status_failure_def
      split: option.splits if_splits)

lemma decode_strip2_not_status: "\<not> status_failure (decode_strip2 data s1 e)"
  using decode_strip3_not_status
  by (auto simp: decode_strip2_def checked_def Let_def status_failure_def
      split: option.splits if_splits)

lemma decode_not_status: "\<not> status_failure (decodeISODataBlock data)"
  using decode_strip2_not_status
  by (auto simp: decodeISODataBlock_def checked_def Let_def status_failure_def
      split: option.splits if_splits)

lemma ReadTracks_status:
  assumes "executeWaitResult m ''r'' 10000 = (Inr (status, result, data), m')"
  shows "(status \<noteq> CHR ''0'' \<longrightarrow> ReadTracks m = (Inl (StatusError ''read'' status), m'))
       \<and> (status = CHR ''0'' \<longrightarrow> \<not> status_failure (fst (ReadTracks m)))"
proof -
  have "\<not> status_failure (Inl err :: error + TrackData)" if "decodeISODataBlock data = Inl err" for err
    using decode_not_status [of data] that by (simp add: status_failure_def split: error.splits)
  then show ?thesis
    using assms by (auto simp: ReadTracks_def status_failure_def split: sum.splits prod.splits)
qed

lemma EraseTracks_command:
  "EraseTracks m t1 t2 t3 =
     (case executeWaitResult m
             [CHR ''c'', char_of ((if t1 then 1 else 0) + (if t2 then 2 else 0)
                + (if t3 then 4 else 0) :: int)] 10000 of
        (Inl err, m') \<Rightarrow> (Inl err, m')
      | (Inr (status, _, _), m') \<Rightarrow>
          if status \<noteq> CHR ''0'' then (Inl (StatusError ''erase'' status), m')
          else (Inr (), m'))"
  unfolding EraseTracks_def using erase_mask [of t1 t2 t3] by (simp add: Let_def)

section \<open>Claims about the codec\<close>

text \<open>
  Claim C1, as the code has it. For all byte strings \<open>t1\<close>, \<open>t2\<close>, \<open>t3\<close> that do not
  contain the escape byte \<open>0x1B\<close>, with \<open>t1\<close> and \<open>t2\<close> not empty (\<open>t3\<close> may be empty),
  decoding the encoded block succeeds and returns exactly \<open>(t1, t2, t3)\<close>.
\<close>

theorem roundtrip_nonempty_tracks:
  assumes t1: "CHR 0x1B \<notin> set t1" and t2: "CHR 0x1B \<notin> set t2" and t3: "CHR 0x1B \<notin> set t3"
    and n1: "t1 \<noteq> []" and n2: "t2 \<noteq> []"
  shows "decodeISODataBlock (encodeISODataBlock t1 t2 t3) = Inr (t1, t2, t3)"
proof -
  define H where "H = EscapeCode @ ''s'' @ EscapeCode @ [CHR 0x01]"
  define M2 where "M2 = EscapeCode @ [CHR 0x02]"
  define M3 where "M3 = EscapeCode @ [CHR 0x03]"
  define T where "T = ''?'' @ EndCode"
  define data where "data = encodeISODataBlock t1 t2 t3"
  have data: "data = H @ t1 @ M2 @ t2 @ M3 @ t3 @ T"
    by (simp add: data_def encodeISODataBlock_def H_def M2_def M3_def T_def EscapeCode_def EndCode_def)
  have lens: "len H = 4" "len M2 = 2" "len M3 = 2" "len T = 2"
    by (simp_all add: H_def M2_def M3_def T_def EscapeCode_def EndCode_def)
  have ld: "len data = len t1 + len t2 + len t3 + 10"
    by (simp add: data lens)
  have p1: "0 < len t1" and p2: "0 < len t2"
    using n1 n2 by simp_all
  have s_hdr: "str_slice data 0 4 = Some H"
    using slice_mid [of 0 "[]" 4 H "t1 @ M2 @ t2 @ M3 @ t3 @ T"] by (simp add: data lens)
  have s_end: "str_slice data (len data - 2) (len data) = Some T"
    using slice_mid [of "len data - 2" "H @ t1 @ M2 @ t2 @ M3 @ t3" "len data" T "[]"]
    by (simp add: data lens)
  have s_r1: "str_slice data 4 (len data) = Some (t1 @ M2 @ t2 @ M3 @ t3 @ T)"
    using slice_mid [of 4 H "len data" "t1 @ M2 @ t2 @ M3 @ t3 @ T" "[]"] by (simp add: data lens)
  have i1: "Index (t1 @ M2 @ t2 @ M3 @ t3 @ T) EscapeCode = len t1"
    using Index_single_app [OF t1] by (simp add: M2_def EscapeCode_def)
  have s_1: "str_slice data 4 (len t1 + 4) = Some t1"
    using slice_mid [of 4 H "len t1 + 4" t1 "M2 @ t2 @ M3 @ t3 @ T"] by (simp add: data lens)
  have s_m2: "str_slice data (len t1 + 4) (len t1 + 4 + 2) = Some M2"
    using slice_mid [of "len t1 + 4" "H @ t1" "len t1 + 4 + 2" M2 "t2 @ M3 @ t3 @ T"]
    by (simp add: data lens)
  have s_r2: "str_slice data (len t1 + 4 + 2) (len data) = Some (t2 @ M3 @ t3 @ T)"
    using slice_mid [of "len t1 + 4 + 2" "H @ t1 @ M2" "len data" "t2 @ M3 @ t3 @ T" "[]"]
    by (simp add: data lens)
  have i2: "Index (t2 @ M3 @ t3 @ T) EscapeCode = len t2"
    using Index_single_app [OF t2] by (simp add: M3_def EscapeCode_def)
  have s_2: "str_slice data (len t1 + 4 + 2) (len t2 + (len t1 + 4 + 2)) = Some t2"
    using slice_mid [of "len t1 + 4 + 2" "H @ t1 @ M2" "len t2 + (len t1 + 4 + 2)" t2 "M3 @ t3 @ T"]
    by (simp add: data lens)
  have s_m3: "str_slice data (len t2 + (len t1 + 4 + 2)) (len t2 + (len t1 + 4 + 2) + 2) = Some M3"
    using slice_mid [of "len t2 + (len t1 + 4 + 2)" "H @ t1 @ M2 @ t2"
        "len t2 + (len t1 + 4 + 2) + 2" M3 "t3 @ T"]
    by (simp add: data lens)
  have s_3: "str_slice data (len t2 + (len t1 + 4 + 2) + 2) (len data - 2) = Some t3"
    using slice_mid [of "len t2 + (len t1 + 4 + 2) + 2" "H @ t1 @ M2 @ t2 @ M3" "len data - 2" t3 T]
    by (simp add: data lens)
  have c3: "str_at data (len t2 + (len t1 + 4 + 2) + 2) = Some (hd (t3 @ T))"
  proof -
    have "data = (H @ t1 @ M2 @ t2 @ M3) @ (t3 @ T)" by (simp add: data)
    moreover have "nat (len t2 + (len t1 + 4 + 2) + 2) = length (H @ t1 @ M2 @ t2 @ M3)"
      using lens by simp
    moreover have "t3 @ T \<noteq> []" by (simp add: T_def)
    ultimately have "data ! nat (len t2 + (len t1 + 4 + 2) + 2) = hd (t3 @ T)"
      by (simp add: nth_append hd_conv_nth del: append_assoc)
    then show ?thesis by (simp add: str_at_def ld)
  qed
  have c3ne: "hd (t3 @ T) \<noteq> CHR 0x1B"
    using t3 by (cases t3) (auto simp: T_def)
  have "decodeISODataBlock data = decode_strip2 data t1 (len t1 + 4)"
    using decode_header_value [OF _ _ _ s_r1 i1 p1 s_1] s_hdr s_end by (simp add: H_def T_def ld)
  also have "\<dots> = decode_strip3 data t1 t2 (len t2 + (len t1 + 4 + 2))"
    using decode_strip2_value [OF _ _ s_r2 i2 p2 s_2] s_m2 p2 by (simp add: M2_def ld)
  also have "\<dots> = Inr (t1, t2, t3)"
    using decode_strip3_value [OF _ _ c3 c3ne s_3] s_m3 by (simp add: M3_def ld)
  finally show ?thesis by (simp add: data_def)
qed

text \<open>
  Witness of C1 on the tracks of the package's own round-trip test, and with an empty
  third track.
\<close>

theorem roundtrip_nonempty_tracks_witness:
  "CHR 0x1B \<notin> set ''TRACK1DATA'' \<and> CHR 0x1B \<notin> set ''TRACK2DATA'' \<and> CHR 0x1B \<notin> set []
     \<and> ''TRACK1DATA'' \<noteq> [] \<and> ''TRACK2DATA'' \<noteq> []
     \<and> decodeISODataBlock (encodeISODataBlock ''TRACK1DATA'' ''TRACK2DATA'' [])
         = Inr (''TRACK1DATA'', ''TRACK2DATA'', [])"
  using roundtrip_nonempty_tracks [of "''TRACK1DATA''" "''TRACK2DATA''" "[]"] by simp

text \<open>
  Counterexample to C1 as stated: no track of \<open>(A, empty, C)\<close> contains the escape
  byte, and decoding the encoded block fails, the marker of the third track being looked
  for at offset 9, two bytes after where it is.
\<close>

theorem roundtrip_empty_track_counterexample:
  "CHR 0x1B \<notin> set ''A'' \<and> CHR 0x1B \<notin> set [] \<and> CHR 0x1B \<notin> set ''C''
     \<and> decodeISODataBlock (encodeISODataBlock ''A'' [] ''C'') = Inl (MissingEsc03 9)"
  by (simp add: decodeISODataBlock_def encodeISODataBlock_def decode_strip2_def
      decode_strip3_def checked_def str_slice_def str_at_def EscapeCode_def EndCode_def)

text \<open>
  Claim C2, as the code has it. Decoding the block encoded from \<open>(empty, B, C)\<close> fails with
  the missing-\<open><ESC>[02]\<close> error at position 6: on finding the escape byte at the start
  of the first field the decoder skips two bytes, here the marker of the second track
  itself, and looks for that marker after them. An empty first field gives the empty
  string and no error when a two-byte filler led by the escape byte stands before the
  marker of the second track: for every byte \<open>x\<close> the block
  \<open>ESC s ESC 01 ESC x ESC 02 B ESC 03 C ? FS\<close> decodes to \<open>(empty, B, C)\<close>.
\<close>

theorem decode_empty_first_field:
  "decodeISODataBlock (encodeISODataBlock [] ''B'' ''C'') = Inl (MissingEsc02 6)
   \<and> decodeISODataBlock
         ([CHR 0x1B, CHR ''s'', CHR 0x1B, CHR 0x01] @ [CHR 0x1B, x] @ [CHR 0x1B, CHR 0x02] @ ''B''
            @ [CHR 0x1B, CHR 0x03] @ ''C'' @ [CHR ''?'', CHR 0x1C])
       = Inr ([], ''B'', ''C'')"
  by (simp add: decodeISODataBlock_def encodeISODataBlock_def decode_strip2_def
      decode_strip3_def checked_def str_slice_def str_at_def EscapeCode_def EndCode_def)

text \<open>Witness of C2 with the filler \<open>ESC +\<close>.\<close>

theorem decode_empty_first_field_witness:
  "decodeISODataBlock
     ([CHR 0x1B, CHR ''s'', CHR 0x1B, CHR 0x01] @ [CHR 0x1B, CHR ''+''] @ [CHR 0x1B, CHR 0x02] @ ''B''
        @ [CHR 0x1B, CHR 0x03] @ ''C'' @ [CHR ''?'', CHR 0x1C])
   = Inr ([], ''B'', ''C'')"
  using decode_empty_first_field [of "CHR ''+''"] by simp

text \<open>
  Counterexample to C2 as stated: decoding the block encoded from \<open>(empty, B, C)\<close> does
  not return \<open>(empty, B, C)\<close>; it is an error.
\<close>

theorem decode_encode_empty_first_counterexample:
  "decodeISODataBlock (encodeISODataBlock [] ''B'' ''C'') \<noteq> Inr ([], ''B'', ''C'')"
  by (simp add: decodeISODataBlock_def encodeISODataBlock_def decode_strip2_def
      decode_strip3_def checked_def str_slice_def str_at_def EscapeCode_def EndCode_def)

text \<open>
  Claim C5. \<^const>\<open>decodeISODataBlock\<close> fails with the malformed-header error, which
  carries the input, whenever the input is shorter than 4 bytes or its first 4 bytes
  are not \<open>ESC s ESC 01\<close>, and with no malformed-header error otherwise.
\<close>

theorem decode_bad_header_iff:
  "(length data < 4 \<or> take 4 data \<noteq> [CHR 0x1B, CHR ''s'', CHR 0x1B, CHR 0x01]
      \<longrightarrow> decodeISODataBlock data = Inl (BadHeader data))
   \<and> (\<not> (length data < 4 \<or> take 4 data \<noteq> [CHR 0x1B, CHR ''s'', CHR 0x1B, CHR 0x01])
      \<longrightarrow> (\<forall>d. decodeISODataBlock data \<noteq> Inl (BadHeader d)))"
  by (auto simp: decodeISODataBlock_def checked_def Let_def str_slice_def EscapeCode_def
      decode_strip2_not_header split: option.splits if_splits)

text \<open>
  Witness of C5: the input \<open>INVALID\<close>, the single escape byte, and a block with the
  right header and no terminator, whose error is not a header error.
\<close>

theorem decode_bad_header_iff_witness:
  "decodeISODataBlock ''INVALID'' = Inl (BadHeader ''INVALID'')
   \<and> decodeISODataBlock [CHR 0x1B] = Inl (BadHeader [CHR 0x1B])
   \<and> decodeISODataBlock ([CHR 0x1B, CHR ''s'', CHR 0x1B, CHR 0x01] @ ''test'')
        \<noteq> Inl (BadHeader ([CHR 0x1B, CHR ''s'', CHR 0x1B, CHR 0x01] @ ''test''))"
  using decode_bad_header_iff [of "''INVALID''"] decode_bad_header_iff [of "[CHR 0x1B]"]
    decode_bad_header_iff [of "[CHR 0x1B, CHR ''s'', CHR 0x1B, CHR 0x01] @ ''test''"]
  by simp

text \<open>
  Claim C9. \<^const>\<open>decodeISODataBlock\<close> returns a triple or one of its errors on every
  input: no index and no slice bound it evaluates is out of range. In the model every
  index and every slice is checked, and a bound out of range would make the result
  \<^const>\<open>RuntimePanic\<close>.
\<close>

theorem decodeISODataBlock_never_panics:
  "decodeISODataBlock data \<noteq> Inl RuntimePanic"
proof (cases "len data < 4")
  case True
  then show ?thesis by (simp add: decodeISODataBlock_def)
next
  case False
  then obtain header where h: "str_slice data 0 4 = Some header"
    by (simp add: str_slice_def)
  obtain trailer where t: "str_slice data (len data - 2) (len data) = Some trailer"
    using False by (simp add: str_slice_def)
  obtain rest where r: "str_slice data 4 (len data) = Some rest"
    and lr: "len rest = len data - 4"
    using False by (simp add: str_slice_def)
  define n where "n = Index rest EscapeCode"
  have n: "n = - 1 \<or> (0 \<le> n \<and> n < len rest)"
    using Index_single_range [of rest "CHR 0x1B"] by (simp add: n_def EscapeCode_def)
  show ?thesis
  proof (cases "header = EscapeCode @ ''s'' @ EscapeCode @ [CHR 0x01] \<and> trailer = ''?'' @ EndCode \<and> n \<noteq> - 1")
    case False
    then show ?thesis using \<open>\<not> len data < 4\<close> h t r
      by (auto simp: decodeISODataBlock_def checked_def n_def Let_def)
  next
    case True
    then have tr: "str_slice data (len data - 2) (len data) = Some (''?'' @ EndCode)"
      using t by simp
    from True have rng: "0 \<le> n" "n + 4 \<le> len data" using n lr by auto
    then obtain s1 where "str_slice data 4 (n + 4) = Some s1"
      by (simp add: str_slice_def)
    then show ?thesis
      using True \<open>\<not> len data < 4\<close> h t r rng decode_strip2_no_panic [OF tr]
      by (simp add: decodeISODataBlock_def checked_def n_def [symmetric] Let_def)
  qed
qed

text \<open>
  Witness of C9 on a truncated block in which the third field would start on the last
  byte, so that a slice up to two bytes before the end would be out of range.
\<close>

theorem decodeISODataBlock_never_panics_witness:
  "decodeISODataBlock ([CHR 0x1B, CHR ''s'', CHR 0x1B, CHR 0x01] @ ''A'' @ [CHR 0x1B, CHR 0x02]
       @ ''B'' @ [CHR 0x1B, CHR ''?'', CHR 0x1C]) \<noteq> Inl RuntimePanic"
  using decodeISODataBlock_never_panics
    [of "[CHR 0x1B, CHR ''s'', CHR 0x1B, CHR 0x01] @ ''A'' @ [CHR 0x1B, CHR 0x02]
       @ ''B'' @ [CHR 0x1B, CHR ''?'', CHR 0x1C]"] by simp

section \<open>Claims about the protocol engine\<close>

text \<open>
  Claim C3. When the accumulated response buffer has no escape byte, the parse of the
  response fails with the invalid-response-format error. When \<open>pos\<close> is the index of the
  last escape byte of the buffer, the parse fails with the incomplete-response error if
  that byte is the last byte of the buffer, and otherwise returns the status
  \<open>buffer[pos+1]\<close>, the result \<open>buffer[pos+2:]\<close> (empty when \<open>pos+2\<close> is the end) and the
  data \<open>buffer[:pos]\<close> (empty when \<open>pos = 0\<close>). A call of \<^const>\<open>executeWaitResult\<close> whose
  write succeeds and whose accumulated buffer is not empty returns this parse of the
  buffer.
\<close>

theorem parse_response_split:
  "(CHR 0x1B \<notin> set buffer \<longrightarrow> parse_response buffer = Inl InvalidResponseFormat)
   \<and> (pos < length buffer \<and> buffer ! pos = CHR 0x1B \<and> CHR 0x1B \<notin> set (drop (Suc pos) buffer)
        \<longrightarrow> parse_response buffer =
              (if Suc pos = length buffer then Inl IncompleteResponse
               else Inr (buffer ! Suc pos, drop (pos + 2) buffer, take pos buffer)))
   \<and> (write_succeeds (port m) \<and> accumulated_response m command timeout = buffer \<and> buffer \<noteq> []
        \<longrightarrow> fst (executeWaitResult m command timeout) = parse_response buffer)"
  using parse_response_no_escape [of buffer] parse_response_at [of pos buffer]
    executeWaitResult_outcome [of m command timeout]
  by auto

text \<open>
  Witness of C3: a buffer without escape byte, a buffer ending on its last escape byte,
  a buffer with an escape byte inside the data, the shortest response, and a call of
  the engine that reads the third of these buffers from the device.
\<close>

theorem parse_response_split_witness:
  "parse_response ''abc'' = Inl InvalidResponseFormat
   \<and> parse_response ([CHR 0x1B, CHR ''s''] @ ''ab'' @ [CHR 0x1B]) = Inl IncompleteResponse
   \<and> parse_response ([CHR 0x1B, CHR ''s''] @ ''ab'' @ [CHR 0x1B, CHR ''0''] @ ''xy'')
       = Inr (CHR ''0'', ''xy'', [CHR 0x1B, CHR ''s''] @ ''ab'')
   \<and> parse_response [CHR 0x1B, CHR ''0''] = Inr (CHR ''0'', [], [])
   \<and> fst (executeWaitResult
         (device [quiet 0, reply ([CHR 0x1B, CHR ''s''] @ ''ab'' @ [CHR 0x1B, CHR ''0''] @ ''xy'')])
         ''r'' 10000)
       = Inr (CHR ''0'', ''xy'', [CHR 0x1B, CHR ''s''] @ ''ab'')"
proof -
  let ?b = "[CHR 0x1B, CHR ''s''] @ ''ab'' @ [CHR 0x1B, CHR ''0''] @ ''xy''"
  let ?m = "device [quiet 0, reply ?b]"
  have ws: "write_succeeds (port ?m)"
    by (simp add: device_def write_succeeds_def)
  have acc: "accumulated_response ?m ''r'' 10000 = ?b"
    by (simp add: accumulated_response_def engine_eval)
  show ?thesis
    using parse_response_split [of "''abc''" 0 ?m "''r''" 10000]
      parse_response_split [of "[CHR 0x1B, CHR ''s''] @ ''ab'' @ [CHR 0x1B]" 4 ?m "''r''" 10000]
      parse_response_split [of ?b 4 ?m "''r''" 10000]
      parse_response_split [of "[CHR 0x1B, CHR ''0'']" 0 ?m "''r''" 10000]
      ws acc
    by simp
qed




section \<open>Claims about the device operations\<close>

text \<open>
  Claim C4. For each operation that awaits a response (read, write, erase, set
  coercivity, set BPC, set BPI, raw read, raw write): when the engine returns the
  status byte \<open>status\<close> for the command of the operation and \<open>status\<close> is not \<open>0\<close>, the
  operation fails with the error that carries the name of the operation in its text
  and that very byte; when \<open>status\<close> is \<open>0\<close> it does not: it succeeds, goes on to the
  next mode (set BPI) or goes on to decode the data (read), whose errors are not
  status errors. Raw read and raw write use the names \<open>read\<close> and \<open>write\<close>.
\<close>

theorem status_byte_surfaced:
  "(executeWaitResult m ''r'' 10000 = (Inr (status, result, data), m') \<longrightarrow>
      (if status \<noteq> CHR ''0'' then ReadTracks m = (Inl (StatusError ''read'' status), m')
       else \<not> status_failure (fst (ReadTracks m))))
   \<and> (executeWaitResult m (''w'' @ encodeISODataBlock t1 t2 t3) 10000
         = (Inr (status, result, data), m') \<longrightarrow>
      WriteTracks m t1 t2 t3 =
        (if status \<noteq> CHR ''0'' then (Inl (StatusError ''write'' status), m') else (Inr (), m')))
   \<and> (executeWaitResult m
         [CHR ''c'', char_of ((if e1 then 1 else 0) + (if e2 then 2 else 0)
            + (if e3 then 4 else 0) :: int)] 10000
         = (Inr (status, result, data), m') \<longrightarrow>
      EraseTracks m e1 e2 e3 =
        (if status \<noteq> CHR ''0'' then (Inl (StatusError ''erase'' status), m') else (Inr (), m')))
   \<and> (executeWaitResult m (if hico then ''x'' else ''y'') 10000
         = (Inr (status, result, data), m') \<longrightarrow>
      SetCoercivity m hico =
        (if status \<noteq> CHR ''0'' then (Inl (StatusError ''set_coercivity'' status), m')
         else (Inr (), m')))
   \<and> (executeWaitResult m
         (''o'' @ string_of_byte (byte bpc1) @ string_of_byte (byte bpc2)
            @ string_of_byte (byte bpc3)) 10000
         = (Inr (status, result, data), m') \<longrightarrow>
      SetBPC m bpc1 bpc2 bpc3 =
        (if status \<noteq> CHR ''0'' then (Inl (StatusError ''set_bpc'' status), m') else (Inr (), m')))
   \<and> (SetBPI_modes bpi1 bpi2 bpi3 = mode # modes
       \<and> executeWaitResult m (''b'' @ mode) 10000 = (Inr (status, result, data), m') \<longrightarrow>
      SetBPI m bpi1 bpi2 bpi3 =
        (if status \<noteq> CHR ''0'' then (Inl (BpiStatusError status mode), m')
         else SetBPI_loop m' modes))
   \<and> (executeWaitResult m (''b'' @ mode) 10000 = (Inr (status, result, data), m') \<longrightarrow>
      SetBPI_loop m (mode # modes) =
        (if status \<noteq> CHR ''0'' then (Inl (BpiStatusError status mode), m')
         else SetBPI_loop m' modes))
   \<and> (executeWaitResult m ''m'' 10000 = (Inr (status, result, data), m') \<longrightarrow>
      ReadRawTracks m =
        (if status \<noteq> CHR ''0'' then (Inl (StatusError ''read'' status), m')
         else (Inr (data, [], []), m')))
   \<and> (executeWaitResult m
         (''n'' @ [CHR 0x1B, CHR ''s'', CHR 0x1B, CHR 0x01] @ string_of_byte (byte (len r1)) @ r1
            @ [CHR 0x1B, CHR 0x02] @ string_of_byte (byte (len r2)) @ r2
            @ [CHR 0x1B, CHR 0x03] @ string_of_byte (byte (len r3)) @ r3
            @ [CHR ''?'', CHR 0x1C]) 10000
         = (Inr (status, result, data), m') \<longrightarrow>
      WriteRawTracks m r1 r2 r3 =
        (if status \<noteq> CHR ''0'' then (Inl (StatusError ''write'' status), m') else (Inr (), m')))"
proof (intro conjI impI)
  assume "executeWaitResult m ''r'' 10000 = (Inr (status, result, data), m')"
  then show "if status \<noteq> CHR ''0'' then ReadTracks m = (Inl (StatusError ''read'' status), m')
       else \<not> status_failure (fst (ReadTracks m))"
    using ReadTracks_status [of m status result data m'] by simp
next
  assume "executeWaitResult m (''w'' @ encodeISODataBlock t1 t2 t3) 10000
         = (Inr (status, result, data), m')"
  then show "WriteTracks m t1 t2 t3 =
        (if status \<noteq> CHR ''0'' then (Inl (StatusError ''write'' status), m') else (Inr (), m'))"
    by (simp add: WriteTracks_def)
next
  assume "executeWaitResult m
         [CHR ''c'', char_of ((if e1 then 1 else 0) + (if e2 then 2 else 0)
            + (if e3 then 4 else 0) :: int)] 10000
         = (Inr (status, result, data), m')"
  then show "EraseTracks m e1 e2 e3 =
        (if status \<noteq> CHR ''0'' then (Inl (StatusError ''erase'' status), m') else (Inr (), m'))"
    by (simp add: EraseTracks_command)
next
  assume "executeWaitResult m (if hico then ''x'' else ''y'') 10000
         = (Inr (status, result, data), m')"
  then show "SetCoercivity m hico =
        (if status \<noteq> CHR ''0'' then (Inl (StatusError ''set_coercivity'' status), m')
         else (Inr (), m'))"
    by (simp add: SetCoercivity_def)
next
  assume "executeWaitResult m
         (''o'' @ string_of_byte (byte bpc1) @ string_of_byte (byte bpc2)
            @ string_of_byte (byte bpc3)) 10000
         = (Inr (status, result, data), m')"
  then show "SetBPC m bpc1 bpc2 bpc3 =
        (if status \<noteq> CHR ''0'' then (Inl (StatusError ''set_bpc'' status), m') else (Inr (), m'))"
    by (simp add: SetBPC_def)
next
  assume "SetBPI_modes bpi1 bpi2 bpi3 = mode # modes
       \<and> executeWaitResult m (''b'' @ mode) 10000 = (Inr (status, result, data), m')"
  then show "SetBPI m bpi1 bpi2 bpi3 =
        (if status \<noteq> CHR ''0'' then (Inl (BpiStatusError status mode), m')
         else SetBPI_loop m' modes)"
    by (simp add: SetBPI_def)
next
  assume "executeWaitResult m (''b'' @ mode) 10000 = (Inr (status, result, data), m')"
  then show "SetBPI_loop m (mode # modes) =
        (if status \<noteq> CHR ''0'' then (Inl (BpiStatusError status mode), m')
         else SetBPI_loop m' modes)"
    by simp
next
  assume "executeWaitResult m ''m'' 10000 = (Inr (status, result, data), m')"
  then show "ReadRawTracks m =
        (if status \<noteq> CHR ''0'' then (Inl (StatusError ''read'' status), m')
         else (Inr (data, [], []), m'))"
    by (simp add: ReadRawTracks_def)
next
  assume "executeWaitResult m
         (''n'' @ [CHR 0x1B, CHR ''s'', CHR 0x1B, CHR 0x01] @ string_of_byte (byte (len r1)) @ r1
            @ [CHR 0x1B, CHR 0x02] @ string_of_byte (byte (len r2)) @ r2
            @ [CHR 0x1B, CHR 0x03] @ string_of_byte (byte (len r3)) @ r3
            @ [CHR ''?'', CHR 0x1C]) 10000
         = (Inr (status, result, data), m')"
  then show "WriteRawTracks m r1 r2 r3 =
        (if status \<noteq> CHR ''0'' then (Inl (StatusError ''write'' status), m') else (Inr (), m'))"
    by (simp add: WriteRawTracks_def)
qed

text \<open>
  Witness of C4: each operation on a device that answers the status \<open>1\<close>, and a write
  on a device that answers \<open>0\<close>.
\<close>

theorem status_byte_surfaced_witness:
  "fst (ReadTracks (device [quiet 0, reply [CHR 0x1B, CHR ''1'']]))
     = Inl (StatusError ''read'' (CHR ''1''))
   \<and> fst (WriteTracks (device [quiet 0, reply [CHR 0x1B, CHR ''1'']]) ''T1'' ''T2'' ''T3'')
     = Inl (StatusError ''write'' (CHR ''1''))
   \<and> fst (WriteTracks (device [quiet 0, reply [CHR 0x1B, CHR ''0'']]) ''T1'' ''T2'' ''T3'')
     = Inr ()
   \<and> fst (EraseTracks (device [quiet 0, reply [CHR 0x1B, CHR ''1'']]) True False True)
     = Inl (StatusError ''erase'' (CHR ''1''))
   \<and> fst (SetCoercivity (device [quiet 0, reply [CHR 0x1B, CHR ''1'']]) True)
     = Inl (StatusError ''set_coercivity'' (CHR ''1''))
   \<and> fst (SetBPC (device [quiet 0, reply [CHR 0x1B, CHR ''1'']]) 8 8 8)
     = Inl (StatusError ''set_bpc'' (CHR ''1''))
   \<and> fst (SetBPI (device [quiet 0, reply [CHR 0x1B, CHR ''1'']]) None (Some True) None)
     = Inl (BpiStatusError (CHR ''1'') [CHR 0xD2])
   \<and> fst (SetBPI_loop (device [quiet 0, reply [CHR 0x1B, CHR ''1'']]) [[CHR 0xD2], [CHR 0xC0]])
     = Inl (BpiStatusError (CHR ''1'') [CHR 0xD2])
   \<and> fst (ReadRawTracks (device [quiet 0, reply [CHR 0x1B, CHR ''1'']]))
     = Inl (StatusError ''read'' (CHR ''1''))
   \<and> fst (WriteRawTracks (device [quiet 0, reply [CHR 0x1B, CHR ''1'']]) ''ab'' ''c'' [])
     = Inl (StatusError ''write'' (CHR ''1''))"
proof -
  let ?d = "device [quiet 0, reply [CHR 0x1B, CHR ''1'']]"
  let ?z = "device [quiet 0, reply [CHR 0x1B, CHR ''0'']]"
  have "fst (executeWaitResult ?d ''r'' 10000) = Inr (CHR ''1'', [], [])"
    by (simp add: engine_eval)
  note c1 = status_byte_surfaced [where m = ?d,
      THEN conjunct1, rule_format, OF engine_result [OF this]]
  have "fst (executeWaitResult ?d (''w'' @ encodeISODataBlock ''T1'' ''T2'' ''T3'') 10000)
      = Inr (CHR ''1'', [], [])"
    by (simp add: engine_eval encodeISODataBlock_def)
  note c2 = status_byte_surfaced [where m = ?d,
      THEN conjunct2, THEN conjunct1, rule_format, OF engine_result [OF this]]
  have "fst (executeWaitResult ?z (''w'' @ encodeISODataBlock ''T1'' ''T2'' ''T3'') 10000)
      = Inr (CHR ''0'', [], [])"
    by (simp add: engine_eval encodeISODataBlock_def)
  note c2' = status_byte_surfaced [where m = ?z,
      THEN conjunct2, THEN conjunct1, rule_format, OF engine_result [OF this]]
  have "fst (executeWaitResult ?d
         [CHR ''c'', char_of ((if True then 1 else 0) + (if False then 2 else 0)
            + (if True then 4 else 0) :: int)] 10000) = Inr (CHR ''1'', [], [])"
    by (simp add: engine_eval)
  note c3 = status_byte_surfaced [where m = ?d,
      THEN conjunct2, THEN conjunct2, THEN conjunct1, rule_format, OF engine_result [OF this]]
  have "fst (executeWaitResult ?d (if True then ''x'' else ''y'') 10000) = Inr (CHR ''1'', [], [])"
    by (simp add: engine_eval)
  note c4 = status_byte_surfaced [where m = ?d,
      THEN conjunct2, THEN conjunct2, THEN conjunct2, THEN conjunct1, rule_format,
      OF engine_result [OF this]]
  have "fst (executeWaitResult ?d
         (''o'' @ string_of_byte (byte 8) @ string_of_byte (byte 8) @ string_of_byte (byte 8)) 10000)
      = Inr (CHR ''1'', [], [])"
    by (simp add: engine_eval)
  note c5 = status_byte_surfaced [where m = ?d,
      THEN conjunct2, THEN conjunct2, THEN conjunct2, THEN conjunct2, THEN conjunct1, rule_format,
      OF engine_result [OF this]]
  have b: "fst (executeWaitResult ?d (''b'' @ [CHR 0xD2]) 10000) = Inr (CHR ''1'', [], [])"
    by (simp add: engine_eval)
  have modes: "SetBPI_modes None (Some True) None = [CHR 0xD2] # []"
    by (simp add: SetBPI_modes_def)
  note c6 = status_byte_surfaced [where m = ?d,
      THEN conjunct2, THEN conjunct2, THEN conjunct2, THEN conjunct2, THEN conjunct2,
      THEN conjunct1, rule_format, OF conjI [OF modes engine_result [OF b]]]
  note c7 = status_byte_surfaced [where m = ?d and modes = "[[CHR 0xC0]]",
      THEN conjunct2, THEN conjunct2, THEN conjunct2, THEN conjunct2, THEN conjunct2,
      THEN conjunct2, THEN conjunct1, rule_format, OF engine_result [OF b]]
  have "fst (executeWaitResult ?d ''m'' 10000) = Inr (CHR ''1'', [], [])"
    by (simp add: engine_eval)
  note c8 = status_byte_surfaced [where m = ?d,
      THEN conjunct2, THEN conjunct2, THEN conjunct2, THEN conjunct2, THEN conjunct2,
      THEN conjunct2, THEN conjunct2, THEN conjunct1, rule_format, OF engine_result [OF this]]
  have "fst (executeWaitResult ?d
         (''n'' @ [CHR 0x1B, CHR ''s'', CHR 0x1B, CHR 0x01] @ string_of_byte (byte (len ''ab'')) @ ''ab''
            @ [CHR 0x1B, CHR 0x02] @ string_of_byte (byte (len ''c'')) @ ''c''
            @ [CHR 0x1B, CHR 0x03] @ string_of_byte (byte (len [])) @ []
            @ [CHR ''?'', CHR 0x1C]) 10000) = Inr (CHR ''1'', [], [])"
    by (simp add: engine_eval)
  note c9 = status_byte_surfaced [where m = ?d,
      THEN conjunct2, THEN conjunct2, THEN conjunct2, THEN conjunct2, THEN conjunct2,
      THEN conjunct2, THEN conjunct2, THEN conjunct2, rule_format, OF engine_result [OF this]]
  show ?thesis using c1 c2 c2' c3 c4 c5 c6 c7 c8 c9 by simp
qed

text \<open>
  Claim C6. For all booleans \<open>t1\<close>, \<open>t2\<close>, \<open>t3\<close>, \<^const>\<open>EraseTracks\<close> hands exactly one
  command to the port: the escape byte, the command code \<open>c\<close> and one byte equal to
  \<open>(1 if t1) + (2 if t2) + (4 if t3)\<close>.
\<close>

theorem EraseTracks_sends_bitmask:
  "writes (port (snd (EraseTracks m t1 t2 t3))) =
     writes (port m) @ [[CHR 0x1B, CHR ''c'',
        char_of ((if t1 then 1 else 0) + (if t2 then 2 else 0) + (if t3 then 4 else 0) :: int)]]"
proof -
  have "snd (EraseTracks m t1 t2 t3) =
      snd (executeWaitResult m (''c'' @ string_of_byte (byte (let mask = (0 :: int);
          mask = (if t1 then mask OR 1 else mask);
          mask = (if t2 then mask OR 2 else mask);
          mask = (if t3 then mask OR 4 else mask) in mask))) 10000)"
    unfolding EraseTracks_def Let_def by (rule snd_status_check)
  then show ?thesis
    by (simp only: erase_mask executeWaitResult_writes) (simp add: EscapeCode_def)
qed

text \<open>Witness of C6: erasing tracks 1 and 3 sends the bitmask byte \<open>0x05\<close>.\<close>

theorem EraseTracks_sends_bitmask_witness:
  "writes (port (snd (EraseTracks (device [quiet 0, reply [CHR 0x1B, CHR ''0'']]) True False True)))
     = [[CHR 0x1B, CHR ''c'', CHR 0x05]]"
proof -
  have five: "char_of (5 :: int) = CHR 0x05"
    by (simp add: char_of_def)
  show ?thesis
    using EraseTracks_sends_bitmask [of "device [quiet 0, reply [CHR 0x1B, CHR ''0'']]" True False True]
    by (simp add: device_def five)
qed

text \<open>
  Claim C7, as the code has it. \<^const>\<open>SetBPI\<close> builds one mode for each track slot that
  is set, in the order of the tracks, each mode a single byte of a fixed table of six
  codes: \<open>0xA1\<close> (high) and \<open>0xA0\<close> (low) for track 1, \<open>0xD2\<close> and \<open>0x4B\<close> for track 2,
  \<open>0xC1\<close> and \<open>0xC0\<close> for track 3; the six codes are distinct. It issues the \<open>b\<close>
  commands of the first \<open>k\<close> modes, in that order, each on the handle that the command
  before it has left (\<open>ms\<close> lists these handles), and nothing else is handed to the
  port. Every issued command but the last is answered with the status \<open>0\<close>, and the
  last one is exactly when \<^const>\<open>SetBPI\<close> returns success: the commands stop with the
  first one that fails or reports another status. On success every mode has been
  sent; on failure at least one command has been sent.
\<close>

theorem SetBPI_commands:
  "SetBPI_modes bpi1 bpi2 bpi3 =
     (case bpi1 of None \<Rightarrow> [] | Some high \<Rightarrow> [[if high then CHR 0xA1 else CHR 0xA0]])
     @ (case bpi2 of None \<Rightarrow> [] | Some high \<Rightarrow> [[if high then CHR 0xD2 else CHR 0x4B]])
     @ (case bpi3 of None \<Rightarrow> [] | Some high \<Rightarrow> [[if high then CHR 0xC1 else CHR 0xC0]])
   \<and> distinct [CHR 0xA1, CHR 0xA0, CHR 0xD2, CHR 0x4B, CHR 0xC1, CHR 0xC0]
   \<and> (\<exists>k ms. k \<le> length (SetBPI_modes bpi1 bpi2 bpi3) \<and> length ms = Suc k
         \<and> ms ! 0 = m \<and> ms ! k = snd (SetBPI m bpi1 bpi2 bpi3)
         \<and> (\<forall>i<k. ms ! Suc i
               = snd (executeWaitResult (ms ! i) (''b'' @ SetBPI_modes bpi1 bpi2 bpi3 ! i) 10000))
         \<and> (\<forall>i<k. answers_zero (ms ! i) (SetBPI_modes bpi1 bpi2 bpi3 ! i)
               = (Suc i < k \<or> fst (SetBPI m bpi1 bpi2 bpi3) = Inr ()))
         \<and> (if fst (SetBPI m bpi1 bpi2 bpi3) = Inr ()
             then k = length (SetBPI_modes bpi1 bpi2 bpi3) else 0 < k)
         \<and> writes (port (snd (SetBPI m bpi1 bpi2 bpi3)))
             = writes (port m)
               @ map (\<lambda>mode. [CHR 0x1B, CHR ''b''] @ mode) (take k (SetBPI_modes bpi1 bpi2 bpi3)))"
proof (intro conjI)
  show "SetBPI_modes bpi1 bpi2 bpi3 =
     (case bpi1 of None \<Rightarrow> [] | Some high \<Rightarrow> [[if high then CHR 0xA1 else CHR 0xA0]])
     @ (case bpi2 of None \<Rightarrow> [] | Some high \<Rightarrow> [[if high then CHR 0xD2 else CHR 0x4B]])
     @ (case bpi3 of None \<Rightarrow> [] | Some high \<Rightarrow> [[if high then CHR 0xC1 else CHR 0xC0]])"
    by (rule SetBPI_modes_table)
  show "distinct [CHR 0xA1, CHR 0xA0, CHR 0xD2, CHR 0x4B, CHR 0xC1, CHR 0xC0]"
    by simp
  define modes where "modes = SetBPI_modes bpi1 bpi2 bpi3"
  obtain k ms where k: "k \<le> length modes" "length ms = Suc k" "ms ! 0 = m"
      "ms ! k = snd (SetBPI_loop m modes)"
      "\<forall>i<k. ms ! Suc i = snd (executeWaitResult (ms ! i) (''b'' @ modes ! i) 10000)"
      "\<forall>i<k. answers_zero (ms ! i) (modes ! i)
                 = (Suc i < k \<or> fst (SetBPI_loop m modes) = Inr ())"
      "if fst (SetBPI_loop m modes) = Inr () then k = length modes else 0 < k"
    using SetBPI_loop_trace [of modes m] by blast
  have w: "writes (port (ms ! k))
           = writes (port (ms ! 0)) @ map (\<lambda>mode. EscapeCode @ ''b'' @ mode) (take k modes)"
    using trace_writes [OF k(5) k(1), of k] by simp
  show "\<exists>k ms. k \<le> length (SetBPI_modes bpi1 bpi2 bpi3) \<and> length ms = Suc k
         \<and> ms ! 0 = m \<and> ms ! k = snd (SetBPI m bpi1 bpi2 bpi3)
         \<and> (\<forall>i<k. ms ! Suc i
               = snd (executeWaitResult (ms ! i) (''b'' @ SetBPI_modes bpi1 bpi2 bpi3 ! i) 10000))
         \<and> (\<forall>i<k. answers_zero (ms ! i) (SetBPI_modes bpi1 bpi2 bpi3 ! i)
               = (Suc i < k \<or> fst (SetBPI m bpi1 bpi2 bpi3) = Inr ()))
         \<and> (if fst (SetBPI m bpi1 bpi2 bpi3) = Inr ()
             then k = length (SetBPI_modes bpi1 bpi2 bpi3) else 0 < k)
         \<and> writes (port (snd (SetBPI m bpi1 bpi2 bpi3)))
             = writes (port m)
               @ map (\<lambda>mode. [CHR 0x1B, CHR ''b''] @ mode) (take k (SetBPI_modes bpi1 bpi2 bpi3))"
    apply (rule exI [of _ k], rule exI [of _ ms])
    using k w by (simp add: SetBPI_def modes_def [symmetric] EscapeCode_def)
qed

text \<open>
  Witness of C7: tracks 1 (high) and 3 (low) on a device that answers \<open>0\<close> to both
  commands.
\<close>

theorem SetBPI_commands_witness:
  "writes (port (snd (SetBPI (device [quiet 0, reply [CHR 0x1B, CHR ''0''],
        quiet 0, reply [CHR 0x1B, CHR ''0'']]) (Some True) None (Some False))))
     = [[CHR 0x1B, CHR ''b'', CHR 0xA1], [CHR 0x1B, CHR ''b'', CHR 0xC0]]"
proof -
  let ?d = "device [quiet 0, reply [CHR 0x1B, CHR ''0''], quiet 0, reply [CHR 0x1B, CHR ''0'']]"
  have ok: "fst (SetBPI ?d (Some True) None (Some False)) = Inr ()"
    by (simp add: SetBPI_def SetBPI_modes_def engine_eval)
  have modes: "SetBPI_modes (Some True) None (Some False) = [[CHR 0xA1], [CHR 0xC0]]"
    by (simp add: SetBPI_modes_def)
  show ?thesis
    using SetBPI_commands [of "Some True" None "Some False" ?d] ok
    by (auto simp: device_def modes)
qed

text \<open>
  Counterexample to C7 as stated: the modes of the two calls with every track high and
  with every track low are six distinct codes, so they are not drawn from a table of
  four; and with tracks 1 and 2 set, on a device that answers \<open>1\<close> to the first
  command, a single command is sent.
\<close>

theorem SetBPI_six_codes_counterexample:
  "distinct (SetBPI_modes (Some True) (Some True) (Some True)
      @ SetBPI_modes (Some False) (Some False) (Some False))
   \<and> length (SetBPI_modes (Some True) (Some True) (Some True)
      @ SetBPI_modes (Some False) (Some False) (Some False)) = 6
   \<and> writes (port (snd (SetBPI (device [quiet 0, reply [CHR 0x1B, CHR ''1'']])
        (Some True) (Some True) None)))
     = [[CHR 0x1B, CHR ''b'', CHR 0xA1]]"
  by (simp add: SetBPI_def SetBPI_modes_def engine_eval)

text \<open>
  Claim C10. \<^const>\<open>SetBPI\<close> with the three tracks unset returns success and leaves the
  handle and the port as they were: nothing is read, nothing is written.
\<close>

theorem SetBPI_all_unset:
  "SetBPI m None None None = (Inr (), m)"
  by (simp add: SetBPI_def SetBPI_modes_def)

text \<open>Witness of C10 on a device with stale input.\<close>

theorem SetBPI_all_unset_witness:
  "SetBPI (device [reply ''stale'']) None None None = (Inr (), device [reply ''stale''])
   \<and> writes (port (snd (SetBPI (device [reply ''stale'']) None None None))) = []"
  using SetBPI_all_unset [of "device [reply ''stale'']"] by (simp add: device_def)

end
